theory Spec2Isabelle
  imports Main "HOL-Library.Char_ord" "HOL-Library.List_Lexorder"
begin

section \<open>Machine integers, characters and strings\<close>

text \<open>
  Positions and lengths are \<open>size_t\<close> values. They are modelled as natural numbers with
  the 64-bit wrap-around written out where the source adds to or subtracts from a value
  that may be \<open>string::npos\<close> or zero. \<open>npos\<close> is the largest \<open>size_t\<close>.
\<close>

definition npos :: nat where
  "npos = 2 ^ 64 - 1"

definition size_t_add :: "nat \<Rightarrow> nat \<Rightarrow> nat" where
  "size_t_add a b = (a + b) mod 2 ^ 64"

definition size_t_sub :: "nat \<Rightarrow> nat \<Rightarrow> nat" where
  "size_t_sub a b = (a + 2 ^ 64 - b) mod 2 ^ 64"

text \<open>
  The program never calls \<open>setlocale\<close>, so the character functions are those of the
  "C" locale: \<open>tolower\<close> maps \<open>A..Z\<close> to \<open>a..z\<close> and leaves every other byte,
  \<open>ispunct\<close> holds of the printable ASCII characters that are neither alphanumeric nor
  the space, \<open>isspace\<close> of the six ASCII white-space characters.
\<close>

definition tolower :: "char \<Rightarrow> char" where
  "tolower c =
     (if (65::nat) \<le> of_char c \<and> of_char c \<le> (90::nat)
      then char_of (of_char c + (32::nat)) else c)"

definition ispunct :: "char \<Rightarrow> bool" where
  "ispunct c =
     (let n = (of_char c :: nat)
      in (33 \<le> n \<and> n \<le> 47) \<or> (58 \<le> n \<and> n \<le> 64) \<or>
         (91 \<le> n \<and> n \<le> 96) \<or> (123 \<le> n \<and> n \<le> 126))"

definition isspace :: "char \<Rightarrow> bool" where
  "isspace c = (let n = (of_char c :: nat) in n = 32 \<or> (9 \<le> n \<and> n \<le> 13))"

text \<open>The three classes each have their own copy of \<open>toLower\<close>; the copies are identical.\<close>

definition toLower :: "string \<Rightarrow> string" where
  "toLower str = map tolower str"

text \<open>\<open>removePunctuation\<close>: pop the last character while it is a punctuation character.\<close>

definition removePunctuation :: "string \<Rightarrow> string" where
  "removePunctuation str = rev (dropWhile ispunct (rev str))"

datatype error =
    OutOfBounds  \<comment> \<open>a \<open>vector::operator[]\<close> read outside the vector (undefined behaviour)\<close>
  | OutOfRange   \<comment> \<open>\<open>std::out_of_range\<close>, thrown by \<open>substr\<close> and \<open>erase\<close>\<close>

definition bind :: "error + 'a \<Rightarrow> ('a \<Rightarrow> error + 'b) \<Rightarrow> error + 'b" where
  "bind m f = (case m of Inl e \<Rightarrow> Inl e | Inr x \<Rightarrow> f x)"

text \<open>\<open>words[i]\<close> on a vector: an index outside the vector is an error of the model.\<close>

definition at :: "'a list \<Rightarrow> nat \<Rightarrow> error + 'a" where
  "at ws i = (if i < length ws then Inr (ws ! i) else Inl OutOfBounds)"

text \<open>
  \<open>str.find(pat, pos)\<close>: the least position \<open>i \<ge> pos\<close> at which \<open>pat\<close> occurs in
  \<open>str\<close>, \<open>npos\<close> when there is none.
\<close>

fun find_at :: "string \<Rightarrow> string \<Rightarrow> nat \<Rightarrow> nat" where
  "find_at pat [] i = (if pat = [] then i else npos)"
| "find_at pat (c # cs) i =
     (if take (length pat) (c # cs) = pat then i else find_at pat cs (Suc i))"

definition str_find :: "string \<Rightarrow> string \<Rightarrow> nat \<Rightarrow> nat" where
  "str_find str pat pos = (if length str < pos then npos else find_at pat (drop pos str) pos)"

text \<open>\<open>str.substr(pos)\<close> and \<open>str.substr(pos, n)\<close> throw when \<open>pos > size()\<close>.\<close>

definition substr :: "string \<Rightarrow> nat \<Rightarrow> error + string" where
  "substr str pos = (if length str < pos then Inl OutOfRange else Inr (drop pos str))"

definition substr_n :: "string \<Rightarrow> nat \<Rightarrow> nat \<Rightarrow> error + string" where
  "substr_n str pos n =
     (if length str < pos then Inl OutOfRange else Inr (take n (drop pos str)))"

text \<open>
  \<open>str.find_first_not_of(cs)\<close> and \<open>str.find_last_not_of(cs)\<close>: the first and the last
  position of a character outside \<open>cs\<close>, \<open>npos\<close> when every character is in \<open>cs\<close>.
\<close>

fun first_not_of :: "string \<Rightarrow> string \<Rightarrow> nat \<Rightarrow> nat" where
  "first_not_of cs [] i = npos"
| "first_not_of cs (c # str) i = (if c \<in> set cs then first_not_of cs str (Suc i) else i)"

definition find_first_not_of :: "string \<Rightarrow> string \<Rightarrow> nat" where
  "find_first_not_of str cs = first_not_of cs str 0"

fun last_not_of :: "string \<Rightarrow> string \<Rightarrow> nat \<Rightarrow> nat \<Rightarrow> nat" where
  "last_not_of cs [] i found = found"
| "last_not_of cs (c # str) i found =
     last_not_of cs str (Suc i) (if c \<in> set cs then found else i)"

definition find_last_not_of :: "string \<Rightarrow> string \<Rightarrow> nat" where
  "find_last_not_of str cs = last_not_of cs str 0 npos"

text \<open>
  \<open>str.erase(pos, n)\<close> removes at most \<open>n\<close> characters from \<open>pos\<close> on;
  \<open>str.erase(pos)\<close> removes everything from \<open>pos\<close> on. Both throw when \<open>pos > size()\<close>.
\<close>

definition erase_n :: "string \<Rightarrow> nat \<Rightarrow> nat \<Rightarrow> error + string" where
  "erase_n str pos n =
     (if length str < pos then Inl OutOfRange else Inr (take pos str @ drop (pos + n) str))"

definition erase :: "string \<Rightarrow> nat \<Rightarrow> error + string" where
  "erase str pos = (if length str < pos then Inl OutOfRange else Inr (take pos str))"

text \<open>
  \<open>while (ss >> word)\<close>: the maximal runs of characters that are not white space, in
  order. \<open>cur\<close> is the word being read, reversed.
\<close>

fun extract_words :: "string \<Rightarrow> string \<Rightarrow> string list" where
  "extract_words cur [] = (if cur = [] then [] else [rev cur])"
| "extract_words cur (c # cs) =
     (if isspace c
      then (if cur = [] then extract_words [] cs else rev cur # extract_words [] cs)
      else extract_words (c # cur) cs)"

text \<open>
  A single \<open>ss >> word\<close> on a fresh stream: the first such run, and the empty string
  (the variable is left as it was constructed) when there is none.
\<close>

definition extract_word :: "string \<Rightarrow> string" where
  "extract_word str = (case extract_words [] str of [] \<Rightarrow> [] | w # _ \<Rightarrow> w)"

section \<open>The fact store\<close>

type_synonym fact = "string list"

text \<open>
  \<open>map<string, vector<vector<string>>>\<close>: the entries of a \<open>std::map\<close>, in ascending
  order of their keys (the order in which the map is iterated).
\<close>

type_synonym facts_map = "(string \<times> fact list) list"

text \<open>
  The state of the program: the \<open>facts\<close> of the one \<open>PrologDatabase\<close> that the parser
  and the query engine share, and the characters written to \<open>cout\<close> so far.
\<close>

record state =
  facts :: facts_map
  cout :: string

definition cout_write :: "state \<Rightarrow> string \<Rightarrow> state" where
  "cout_write s str = s\<lparr>cout := cout s @ str\<rparr>"

text \<open>\<open>facts.find(k)\<close>: \<open>None\<close> stands for \<open>facts.end()\<close>.\<close>

definition map_find :: "facts_map \<Rightarrow> string \<Rightarrow> fact list option" where
  "map_find m k = map_of m k"

text \<open>Insertion of a key that the map does not hold, at its place in the key order.\<close>

fun map_insert :: "string \<Rightarrow> fact list \<Rightarrow> facts_map \<Rightarrow> facts_map" where
  "map_insert k v [] = [(k, v)]"
| "map_insert k v ((k', v') # m) =
     (if k < k' then (k, v) # (k', v') # m else (k', v') # map_insert k v m)"

text \<open>
  \<open>facts[k]\<close> (the non-const \<open>operator[]\<close>): the value at \<open>k\<close>; a key that is absent is
  first inserted with an empty vector. The map that results is returned with the value.
\<close>

definition map_index :: "facts_map \<Rightarrow> string \<Rightarrow> facts_map \<times> fact list" where
  "map_index m k =
     (case map_find m k of
        Some v \<Rightarrow> (m, v)
      | None \<Rightarrow> (map_insert k [] m, []))"

text \<open>Assignment through the reference that \<open>facts[k]\<close> returned.\<close>

fun map_assign :: "string \<Rightarrow> fact list \<Rightarrow> facts_map \<Rightarrow> facts_map" where
  "map_assign k v [] = []"
| "map_assign k v ((k', v') # m) =
     (if k = k' then (k', v) # m else (k', v') # map_assign k v m)"

text \<open>The argument list as \<open>addFact\<close> and \<open>printDatabase\<close> print it: separated by ", ".\<close>

fun write_args :: "state \<Rightarrow> fact \<Rightarrow> state" where
  "write_args s [] = s"
| "write_args s [a] = cout_write s a"
| "write_args s (a # b # as) = write_args (cout_write (cout_write s a) '', '') (b # as)"

definition addFact :: "state \<Rightarrow> string \<Rightarrow> fact \<Rightarrow> state" where
  "addFact s predicate arguments =
     (let pred = toLower predicate;
          (m, v) = map_index (facts s) pred;
          s1 = s\<lparr>facts := map_assign pred (v @ [arguments]) m\<rparr>;
          s2 = cout_write (cout_write (cout_write s1 ''Added fact: '') predicate) ''('';
          s3 = write_args s2 arguments
      in cout_write s3 '')\<newline>'')"

text \<open>
  The inner loop of \<open>query\<close>, from position \<open>i\<close>: \<open>False\<close> at the first position where
  the pattern is not "?" and differs from the fact after case folding.
\<close>

function match_args :: "fact \<Rightarrow> fact \<Rightarrow> nat \<Rightarrow> bool" where
  "match_args arguments fct i =
     (if i < length arguments
      then (if arguments ! i \<noteq> ''?'' \<and> toLower (arguments ! i) \<noteq> toLower (fct ! i)
            then False
            else match_args arguments fct (Suc i))
      else True)"
  by pat_completeness auto
termination
  by (relation "measure (\<lambda>(arguments, fct, i). length arguments - i)") auto

text \<open>
  The outer loop of \<open>query\<close> over the facts of the predicate: a fact of another arity is
  skipped (\<open>continue\<close>), a fact that matches is pushed onto \<open>results\<close>.
\<close>

fun query_loop :: "fact \<Rightarrow> fact list \<Rightarrow> fact list \<Rightarrow> fact list" where
  "query_loop arguments [] results = results"
| "query_loop arguments (fct # rest) results =
     (if length fct \<noteq> length arguments then query_loop arguments rest results
      else if match_args arguments fct 0 then query_loop arguments rest (results @ [fct])
      else query_loop arguments rest results)"

definition query :: "state \<Rightarrow> string \<Rightarrow> fact \<Rightarrow> state \<times> fact list" where
  "query s predicate arguments =
     (let pred = toLower predicate
      in if map_find (facts s) pred = None then (s, [])
         else (let (m, fs) = map_index (facts s) pred
               in (s\<lparr>facts := m\<rparr>, query_loop arguments fs [])))"

fun write_facts :: "string \<Rightarrow> fact list \<Rightarrow> state \<Rightarrow> state" where
  "write_facts name [] s = s"
| "write_facts name (fct # rest) s =
     write_facts name rest
       (cout_write
          (write_args (cout_write (cout_write (cout_write s ''  '') name) ''('') fct)
          '')\<newline>'')"

fun write_predicates :: "facts_map \<Rightarrow> state \<Rightarrow> state" where
  "write_predicates [] s = s"
| "write_predicates ((name, fs) # rest) s =
     write_predicates rest
       (write_facts name fs
          (cout_write (cout_write (cout_write s ''\<newline>Predicate: '') name) ''\<newline>''))"

definition printDatabase :: "state \<Rightarrow> state" where
  "printDatabase s =
     (let s1 = cout_write s ''\<newline>========== PROLOG DATABASE ==========\<newline>''
      in if facts s1 = [] then cout_write s1 ''Database is empty.\<newline>''
         else cout_write (write_predicates (facts s1) s1)
                ''=====================================\<newline>\<newline>'')"

section \<open>The statement parser\<close>

text \<open>
  The successive results of \<open>getline(ss, token, delimiter)\<close> until it fails: the pieces
  between the delimiters. At the end of the stream a piece with no character makes
  \<open>getline\<close> fail. \<open>cur\<close> is the piece being read, reversed.
\<close>

fun getlines :: "char \<Rightarrow> string \<Rightarrow> string \<Rightarrow> string list" where
  "getlines delimiter cur [] = (if cur = [] then [] else [rev cur])"
| "getlines delimiter cur (c # cs) =
     (if c = delimiter then rev cur # getlines delimiter [] cs
      else getlines delimiter (c # cur) cs)"

definition whitespace :: string where
  "whitespace = [CHR '' '', CHR 0x09, CHR 0x0A, CHR 0x0D]"

text \<open>The two \<open>erase\<close> calls of \<open>split\<close> that trim a token.\<close>

definition trim_token :: "string \<Rightarrow> error + string" where
  "trim_token token =
     bind (erase_n token 0 (find_first_not_of token whitespace))
       (\<lambda>t. erase t (size_t_add (find_last_not_of t whitespace) 1))"

fun push_tokens :: "string list \<Rightarrow> string list \<Rightarrow> error + string list" where
  "push_tokens [] tokens = Inr tokens"
| "push_tokens (token # rest) tokens =
     (case trim_token token of
        Inl e \<Rightarrow> Inl e
      | Inr t \<Rightarrow> push_tokens rest (if t \<noteq> [] then tokens @ [t] else tokens))"

definition split_str :: "string \<Rightarrow> char \<Rightarrow> error + string list" where
  "split_str str delimiter = push_tokens (getlines delimiter [] str) []"

text \<open>
  \<open>parseRelationship\<close> from iteration \<open>i\<close> of its loop on. \<open>words[i+1]\<close>, \<open>words[i+2]\<close>
  and \<open>words[i+3]\<close> are read under the test \<open>i + 3 < words.size()\<close>; \<open>words[i-1]\<close> and
  \<open>words[i+4]\<close> are read under no test of their own, \<open>i - 1\<close> being a \<open>size_t\<close>.
\<close>

function parseRelationship_from :: "state \<Rightarrow> string list \<Rightarrow> nat \<Rightarrow> error + state" where
  "parseRelationship_from s words i =
     (if i < length words
      then (let word = toLower (words ! i)
            in if word = ''is'' \<and> i + 3 < length words \<and>
                  toLower (words ! (i + 1)) = ''the'' \<and>
                  toLower (words ! (i + 3)) = ''of''
               then (case at words (size_t_sub i 1) of
                       Inl e \<Rightarrow> Inl e
                     | Inr w1 \<Rightarrow>
                        (case at words (i + 4) of
                           Inl e \<Rightarrow> Inl e
                         | Inr w3 \<Rightarrow>
                            Inr (addFact s (removePunctuation (toLower (words ! (i + 2))))
                                   [removePunctuation (toLower w1),
                                    removePunctuation (toLower w3)])))
               else parseRelationship_from s words (Suc i))
      else if 3 \<le> length words
           then Inr (addFact s (removePunctuation (toLower (words ! 1)))
                       [removePunctuation (toLower (words ! 0)),
                        removePunctuation (toLower (words ! 2))])
           else Inr s)"
  by pat_completeness auto
termination
  by (relation "measure (\<lambda>(s, words, i). length words - i)") auto

definition parseRelationship :: "state \<Rightarrow> string list \<Rightarrow> error + state" where
  "parseRelationship s words = parseRelationship_from s words 0"

definition parseProperty :: "state \<Rightarrow> string list \<Rightarrow> state" where
  "parseProperty s words =
     (if 3 \<le> length words \<and> toLower (words ! 1) = ''is''
      then addFact s (removePunctuation (toLower (words ! 2)))
             [removePunctuation (toLower (words ! 0))]
      else s)"

function parseLivesIn_from :: "state \<Rightarrow> string list \<Rightarrow> nat \<Rightarrow> error + state" where
  "parseLivesIn_from s words i =
     (if i < length words
      then (if toLower (words ! i) = ''lives'' \<and> i + 2 < length words \<and>
               toLower (words ! (i + 1)) = ''in''
            then (case at words (size_t_sub i 1) of
                    Inl e \<Rightarrow> Inl e
                  | Inr w1 \<Rightarrow>
                     Inr (addFact s ''lives_in''
                            [removePunctuation (toLower w1),
                             removePunctuation (toLower (words ! (i + 2)))]))
            else parseLivesIn_from s words (Suc i))
      else Inr s)"
  by pat_completeness auto
termination
  by (relation "measure (\<lambda>(s, words, i). length words - i)") auto

definition parseLivesIn :: "state \<Rightarrow> string list \<Rightarrow> error + state" where
  "parseLivesIn s words = parseLivesIn_from s words 0"

definition parseText :: "state \<Rightarrow> string \<Rightarrow> error + state" where
  "parseText s text =
     (let s1 = cout_write s (''\<newline>Parsing: '' @ [CHR 0x22] @ text @ [CHR 0x22] @ ''\<newline>'')
      in bind (split_str text CHR '' '')
           (\<lambda>words.
              if words = [] then Inr (cout_write s1 ''Empty sentence, nothing to parse.\<newline>'')
              else (let textLower = toLower text
                    in if str_find textLower ''lives in'' 0 \<noteq> npos
                       then parseLivesIn s1 words
                       else if str_find textLower ''is the'' 0 \<noteq> npos \<and>
                               str_find textLower '' of '' 0 \<noteq> npos
                       then parseRelationship s1 words
                       else if str_find textLower '' is '' 0 \<noteq> npos
                       then (if length words = 3 then Inr (parseProperty s1 words)
                             else parseRelationship s1 words)
                       else if 3 \<le> length words
                       then parseRelationship s1 words
                       else Inr (cout_write s1 ''Could not parse sentence pattern.\<newline>''))))"

section \<open>The query engine\<close>

definition extractRelation :: "string \<Rightarrow> error + string" where
  "extractRelation question =
     (let start = size_t_add (str_find question ''is the '' 0) 7;
          end_pos = str_find question '' of'' start
      in if start \<noteq> npos \<and> end_pos \<noteq> npos
         then bind (substr_n question start (size_t_sub end_pos start))
                (\<lambda>relation. Inr (removePunctuation relation))
         else Inr [])"

definition extractObject :: "string \<Rightarrow> nat \<Rightarrow> error + string" where
  "extractObject question startPos =
     bind (substr question startPos) (\<lambda>rest. Inr (removePunctuation (extract_word rest)))"

fun write_results :: "state \<Rightarrow> fact list \<Rightarrow> nat \<Rightarrow> state" where
  "write_results s [] index = s"
| "write_results s (result # rest) index =
     write_results
       (if index < length result
        then cout_write (cout_write (cout_write s ''  - '') (result ! index)) ''\<newline>''
        else s)
       rest index"

definition printResults :: "state \<Rightarrow> fact list \<Rightarrow> string \<Rightarrow> nat \<Rightarrow> state" where
  "printResults s results label index =
     (if results = [] then cout_write s ''Answer: No matches found.\<newline>''
      else write_results (cout_write (cout_write s label) '':\<newline>'') results index)"

text \<open>The two branches of the "Is ...?" pattern print the same two answers.\<close>

definition answer_yes_no :: "state \<Rightarrow> fact list \<Rightarrow> state" where
  "answer_yes_no s results =
     (if results \<noteq> [] then cout_write s ''Answer: Yes\<newline>''
      else cout_write s ''Answer: No (or unknown)\<newline>'')"

definition processQuery :: "state \<Rightarrow> string \<Rightarrow> error + state" where
  "processQuery s question =
     (let s1 = cout_write s
                 (''\<newline>Query: '' @ [CHR 0x22] @ question @ [CHR 0x22] @ ''\<newline>'');
          questionLower = toLower question
      in if str_find questionLower ''who is the'' 0 \<noteq> npos
         then (let pos = str_find questionLower ''of '' 0
               in if pos \<noteq> npos
                  then bind (extractRelation questionLower)
                         (\<lambda>relation.
                            bind (extractObject questionLower (size_t_add pos 3))
                              (\<lambda>object.
                                 let (s2, results) = query s1 relation [''?'', object]
                                 in Inr (printResults s2 results ''Who'' 0)))
                  else Inr s1)
         else if str_find questionLower ''what does'' 0 \<noteq> npos
         then (let pos = str_find questionLower ''what does '' 0
               in bind (substr questionLower (size_t_add pos 10))
                    (\<lambda>rest.
                       let words = map removePunctuation (extract_words [] rest)
                       in if 2 \<le> length words
                          then (let subject = words ! 0;
                                    relation = words ! 1;
                                    (s2, results) = query s1 relation [subject, ''?'']
                                in Inr (printResults s2 results ''Answer'' 1))
                          else Inr s1))
         else if str_find questionLower ''where does'' 0 \<noteq> npos \<and>
                 str_find questionLower ''live'' 0 \<noteq> npos
         then (let pos = str_find questionLower ''where does '' 0
               in bind (substr questionLower (size_t_add pos 11))
                    (\<lambda>rest.
                       let subject = removePunctuation (toLower (extract_word rest));
                           (s2, results) = query s1 ''lives_in'' [subject, ''?'']
                       in Inr (printResults s2 results ''Location'' 1)))
         else if str_find questionLower ''is '' 0 = 0
         then (let words = map removePunctuation (extract_words [] questionLower)
               in if length words = 3
                  then (let subject = words ! 1;
                            property = words ! 2;
                            (s2, results) = query s1 property [subject]
                        in Inr (answer_yes_no s2 results))
                  else if 4 \<le> length words
                  then (let subject = words ! 1;
                            relation = words ! 2;
                            object = words ! 3;
                            (s2, results) = query s1 relation [subject, object]
                        in Inr (answer_yes_no s2 results))
                  else Inr s1)
         else Inr (cout_write s1 ''Could not understand query format.\<newline>''))"

section \<open>Specification-level notions\<close>

text \<open>The sequence of tuples stored under a key; empty for a key that is absent.\<close>

definition stored :: "state \<Rightarrow> string \<Rightarrow> fact list" where
  "stored s k = (case map_find (facts s) k of None \<Rightarrow> [] | Some fs \<Rightarrow> fs)"

text \<open>
  The match of the specification: pattern and tuple have the same length and, at every
  position, the pattern atom is the wildcard or equals the stored atom after case folding.
\<close>

definition spec_matches :: "fact \<Rightarrow> fact \<Rightarrow> bool" where
  "spec_matches pattern tuple =
     list_all2 (\<lambda>p x. p = ''?'' \<or> toLower p = toLower x) pattern tuple"

text \<open>A sequence of \<open>addFact\<close> calls, in order.\<close>

fun add_all :: "state \<Rightarrow> (string \<times> fact) list \<Rightarrow> state" where
  "add_all s [] = s"
| "add_all s ((predicate, arguments) # rest) = add_all (addFact s predicate arguments) rest"

definition empty_state :: state where
  "empty_state = \<lparr>facts = [], cout = []\<rparr>"

text \<open>What \<open>processQuery\<close> prints first: the question, quoted.\<close>

definition query_echo :: "string \<Rightarrow> string" where
  "query_echo question = ''\<newline>Query: '' @ [CHR 0x22] @ question @ [CHR 0x22] @ ''\<newline>''"

text \<open>A labeled list: the label line, then one line for each value, in order.\<close>

definition labeled_list :: "string \<Rightarrow> string list \<Rightarrow> string" where
  "labeled_list label vals =
     label @ '':\<newline>'' @ concat (map (\<lambda>v. ''  - '' @ v @ ''\<newline>'') vals)"

text \<open>
  The rendering of a list of matching facts: the "no matches" message when there is
  none, the labeled list of their slot \<open>index\<close> otherwise.
\<close>

definition results_text :: "fact list \<Rightarrow> string \<Rightarrow> nat \<Rightarrow> string" where
  "results_text results label index =
     (if results = [] then ''Answer: No matches found.\<newline>''
      else labeled_list label (map (\<lambda>r. r ! index) results))"

definition yes_no_text :: "fact list \<Rightarrow> string" where
  "yes_no_text results =
     (if results \<noteq> [] then ''Answer: Yes\<newline>'' else ''Answer: No (or unknown)\<newline>'')"

text \<open>
  The questions that select a pattern and lack its operands: "who is the" with no "of ",
  "what does" with fewer than two words after it, "is " with fewer than three words.
\<close>

definition no_operands :: "string \<Rightarrow> bool" where
  "no_operands q =
     (let ql = toLower q
      in if str_find ql ''who is the'' 0 \<noteq> npos then str_find ql ''of '' 0 = npos
         else if str_find ql ''what does'' 0 \<noteq> npos
         then length (extract_words []
                        (drop (size_t_add (str_find ql ''what does '' 0) 10) ql)) < 2
         else if str_find ql ''where does'' 0 \<noteq> npos \<and> str_find ql ''live'' 0 \<noteq> npos
         then False
         else if str_find ql ''is '' 0 = 0 then length (extract_words [] ql) < 3
         else False)"

text \<open>
  The store of the question round-trip: \<open>parent(john, mary)\<close>, \<open>likes(john, pizza)\<close>,
  \<open>tall(alice)\<close>, \<open>lives_in(john, paris)\<close> and \<open>parent(john, tom)\<close>.
\<close>

definition demo_facts :: facts_map where
  "demo_facts =
     [(''likes'', [[''john'', ''pizza'']]),
      (''lives_in'', [[''john'', ''paris'']]),
      (''parent'', [[''john'', ''mary''], [''john'', ''tom'']]),
      (''tall'', [[''alice'']])]"

text \<open>What \<open>parseText\<close> prints first: the sentence, quoted.\<close>

definition parse_echo :: "string \<Rightarrow> string" where
  "parse_echo text = ''\<newline>Parsing: '' @ [CHR 0x22] @ text @ [CHR 0x22] @ ''\<newline>''"

text \<open>
  \<open>s'\<close> holds the facts of \<open>s\<close> and the tuple \<open>t\<close> appended to the sequence under the
  key \<open>k\<close>: the one change of the store, seen through \<open>facts.find\<close>.
\<close>

definition appended_one :: "state \<Rightarrow> string \<Rightarrow> fact \<Rightarrow> state \<Rightarrow> bool" where
  "appended_one s k t s' =
     (\<forall>k'. map_find (facts s') k' =
            (if k' = k then Some (stored s k @ [t]) else map_find (facts s) k'))"

text \<open>A sequence of \<open>parseText\<close> calls, in order, as in \<open>main\<close>.\<close>

fun parse_all :: "state \<Rightarrow> string list \<Rightarrow> error + state" where
  "parse_all s [] = Inr s"
| "parse_all s (text # rest) =
     (case parseText s text of Inl e \<Rightarrow> Inl e | Inr s' \<Rightarrow> parse_all s' rest)"

text \<open>
  The "what does" pattern as the specification words it: the remainder after the first
  "what does ", its words with the punctuation stripped, the first as subject and the
  second as relation, and the rendering of the second slot of the facts that match
  \<open>relation(subject, ?)\<close>.
\<close>

definition what_does_rest :: "string \<Rightarrow> string" where
  "what_does_rest q = (let ql = toLower q in drop (str_find ql ''what does '' 0 + 10) ql)"

definition what_does_tokens :: "string \<Rightarrow> string list" where
  "what_does_tokens q = map removePunctuation (extract_words [] (what_does_rest q))"

definition what_does_answer :: "state \<Rightarrow> string \<Rightarrow> string" where
  "what_does_answer s q =
     (let subject = what_does_tokens q ! 0;
          relation = what_does_tokens q ! 1
      in results_text (filter (spec_matches [subject, ''?'']) (stored s (toLower relation)))
           ''Answer'' 1)"

section \<open>Properties of the fact store\<close>

declare match_args.simps [simp del]

lemmas char_eval = toLower_def tolower_def ispunct_def isspace_def char_of_def bit_Suc_0_iff

lemmas string_eval = str_find_def npos_def size_t_add_def size_t_sub_def substr_def substr_n_def
  find_first_not_of_def find_last_not_of_def erase_def erase_n_def extract_word_def
  removePunctuation_def bind_def at_def whitespace_def

lemma facts_cout_write [simp]: "facts (cout_write s x) = facts s"
  by (simp add: cout_write_def)

lemma facts_write_args [simp]: "facts (write_args s as) = facts s"
  by (induction s as rule: write_args.induct) simp_all

lemma map_of_map_insert:
  "map_of m k = None \<Longrightarrow> map_of (map_insert k v m) = (map_of m)(k \<mapsto> v)"
  by (induction m) (auto split: if_splits)

lemma map_of_map_assign:
  "map_of (map_assign k v m) k' =
     (if k' = k \<and> map_of m k \<noteq> None then Some v else map_of m k')"
  by (induction m) auto

lemma map_find_addFact:
  "map_find (facts (addFact s p a)) k =
     (if k = toLower p then Some (stored s k @ [a]) else map_find (facts s) k)"
  by (auto simp: addFact_def map_index_def map_find_def stored_def Let_def
        map_of_map_assign map_of_map_insert split: option.splits)

lemma stored_addFact:
  "stored (addFact s p a) k = (if k = toLower p then stored s k @ [a] else stored s k)"
  by (simp add: stored_def map_find_addFact)

lemma match_args_iff:
  "match_args pattern tuple i \<longleftrightarrow>
     (\<forall>j. i \<le> j \<and> j < length pattern \<longrightarrow>
        pattern ! j = ''?'' \<or> toLower (pattern ! j) = toLower (tuple ! j))"
proof (induction pattern tuple i rule: match_args.induct)
  case (1 arguments fct i)
  show ?case
  proof (cases "i < length arguments")
    case False
    then show ?thesis by (subst match_args.simps) auto
  next
    case True
    show ?thesis
    proof (cases "arguments ! i \<noteq> ''?'' \<and> toLower (arguments ! i) \<noteq> toLower (fct ! i)")
      case stop: True
      then have "\<not> match_args arguments fct i"
        using True by (subst match_args.simps) simp
      moreover have "\<not> (\<forall>j. i \<le> j \<and> j < length arguments \<longrightarrow>
          arguments ! j = ''?'' \<or> toLower (arguments ! j) = toLower (fct ! j))"
        using True stop by blast
      ultimately show ?thesis by blast
    next
      case go: False
      then have "match_args arguments fct i = match_args arguments fct (Suc i)"
        using True by (subst match_args.simps) auto
      also have "\<dots> = (\<forall>j. Suc i \<le> j \<and> j < length arguments \<longrightarrow>
          arguments ! j = ''?'' \<or> toLower (arguments ! j) = toLower (fct ! j))"
        using "1.IH" True go by blast
      also have "\<dots> = (\<forall>j. i \<le> j \<and> j < length arguments \<longrightarrow>
          arguments ! j = ''?'' \<or> toLower (arguments ! j) = toLower (fct ! j))"
        using go by (metis Suc_leD Suc_leI le_neq_implies_less)
      finally show ?thesis .
    qed
  qed
qed

lemma match_args_spec:
  "length tuple = length pattern \<Longrightarrow> match_args pattern tuple 0 = spec_matches pattern tuple"
  by (auto simp: match_args_iff spec_matches_def list_all2_conv_all_nth)

lemma query_loop_filter:
  "query_loop pattern fs results =
     results @ filter (\<lambda>t. length t = length pattern \<and> match_args pattern t 0) fs"
  by (induction fs arbitrary: results) auto

lemma query_store: "fst (query s p pattern) = s"
  by (auto simp: query_def map_index_def Let_def split: option.splits)

lemma query_results:
  "snd (query s p pattern) = filter (spec_matches pattern) (stored s (toLower p))"
proof -
  have "filter (\<lambda>t. length t = length pattern \<and> match_args pattern t 0) fs
        = filter (spec_matches pattern) fs" for fs
  proof (rule filter_cong)
    fix t assume "t \<in> set fs"
    show "(length t = length pattern \<and> match_args pattern t 0) = spec_matches pattern t"
    proof (cases "length t = length pattern")
      case True
      then show ?thesis by (simp add: match_args_spec)
    next
      case False
      then show ?thesis by (auto simp: spec_matches_def dest: list_all2_lengthD)
    qed
  qed simp
  then show ?thesis
    by (auto simp: query_def map_index_def Let_def stored_def query_loop_filter
        split: option.splits)
qed


lemma stored_add_all:
  "stored (add_all s ins) k =
     stored s k @ map snd (filter (\<lambda>(p, a). toLower p = k) ins)"
  by (induction s ins rule: add_all.induct) (auto simp: stored_addFact)

lemma match_args_wildcards:
  "list_all (\<lambda>x. x = ''?'') pattern \<Longrightarrow> match_args pattern tuple 0"
  by (auto simp: match_args_iff list_all_length)

lemma match_args_refl: "match_args tuple tuple 0"
  by (simp add: match_args_iff)

text \<open>
  C3. A query returns exactly the tuples stored under the case-folded predicate that have
  the arity of the pattern and match it, in their stored order, and leaves the state as it
  is: a tuple of another arity is skipped and the scan goes on. On a predicate that holds
  tuples of arity 3 and 2 interleaved, a pattern of two wildcards returns the two tuples of
  arity 2 and a pattern of three wildcards the two of arity 3.
\<close>

theorem query_arity_filter:
  "query s predicate pattern =
     (s, filter (\<lambda>t. length t = length pattern \<and> spec_matches pattern t)
           (stored s (toLower predicate)))
   \<and> snd (query
        \<lparr>facts = [(''f'', [[''a'', ''b'', ''c''], [''a'', ''b''], [''x'', ''y'', ''z''], [''x'', ''y'']])],
         cout = []\<rparr> ''f'' [''?'', ''?''])
     = [[''a'', ''b''], [''x'', ''y'']]
   \<and> snd (query
        \<lparr>facts = [(''f'', [[''a'', ''b'', ''c''], [''a'', ''b''], [''x'', ''y'', ''z''], [''x'', ''y'']])],
         cout = []\<rparr> ''f'' [''?'', ''?'', ''?''])
     = [[''a'', ''b'', ''c''], [''x'', ''y'', ''z'']]"
proof -
  have same: "filter (\<lambda>t. length t = length pattern \<and> spec_matches pattern t) fs
              = filter (spec_matches pattern) fs" for fs
    by (rule filter_cong) (auto simp: spec_matches_def dest: list_all2_lengthD)
  have "query s predicate pattern = (fst (query s predicate pattern), snd (query s predicate pattern))"
    by simp
  then have general: "query s predicate pattern =
     (s, filter (\<lambda>t. length t = length pattern \<and> spec_matches pattern t)
           (stored s (toLower predicate)))"
    by (simp only: query_store query_results same)
  show ?thesis
    using general
    by (simp add: query_results stored_def map_find_def spec_matches_def char_eval)
qed

text \<open>
  C4. After \<open>addFact(P, A)\<close>, the query for \<open>A\<close> under any predicate name that folds to
  the same key as \<open>P\<close> (\<open>P\<close> itself among them) returns a list that contains \<open>A\<close>.
\<close>

theorem addFact_query_roundtrip:
  assumes "toLower P' = toLower P"
  shows "A \<in> set (snd (query (addFact s P A) P' A))"
proof -
  have "spec_matches A A"
    using match_args_spec [of A A] match_args_refl [of A] by simp
  then show ?thesis
    using assms by (simp add: query_results stored_addFact)
qed

theorem addFact_query_roundtrip_witness:
  "toLower ''PARENT'' = toLower ''Parent'' \<and>
   [''john'', ''mary''] \<in> set (snd (query (addFact empty_state ''Parent'' [''john'', ''mary''])
                                      ''PARENT'' [''john'', ''mary'']))"
proof -
  have h: "toLower ''PARENT'' = toLower ''Parent''"
    by (simp add: char_eval)
  show ?thesis
    using h addFact_query_roundtrip [OF h, of "[''john'', ''mary'']" empty_state] by simp
qed

text \<open>
  C5. When every position of the pattern is the wildcard "?", the query returns exactly
  the tuples under the predicate whose arity is that of the pattern, in the order of their
  insertion: after any sequence of \<open>addFact\<close> calls, the tuples stored before, then the
  arguments of the calls whose predicate folds to the same key, in the order of the calls.
\<close>

theorem query_all_wildcards:
  assumes "list_all (\<lambda>x. x = ''?'') pattern"
  shows "snd (query (add_all s insertions) P pattern) =
           filter (\<lambda>t. length t = length pattern)
             (stored s (toLower P) @
              map snd (filter (\<lambda>(p, a). toLower p = toLower P) insertions))"
proof -
  have "filter (spec_matches pattern) fs = filter (\<lambda>t. length t = length pattern) fs" for fs
  proof (rule filter_cong)
    fix t
    show "spec_matches pattern t = (length t = length pattern)"
      using match_args_wildcards [OF assms, of t] match_args_spec [of t pattern]
      by (auto simp: spec_matches_def dest: list_all2_lengthD)
  qed simp
  then show ?thesis
    by (simp add: query_results stored_add_all)
qed

theorem query_all_wildcards_witness:
  "list_all (\<lambda>x. x = ''?'') [''?'', ''?''] \<and>
   snd (query (add_all empty_state
                 [(''f'', [''a'', ''b'']), (''F'', [''a'', ''b'', ''c'']),
                  (''g'', [''x'', ''y'']), (''f'', [''c'', ''d''])])
          ''f'' [''?'', ''?''])
   = [[''a'', ''b''], [''c'', ''d'']]"
proof -
  have h: "list_all (\<lambda>x. x = ''?'') [''?'', ''?'']"
    by simp
  show ?thesis
    using h query_all_wildcards [OF h, of empty_state
        "[(''f'', [''a'', ''b'']), (''F'', [''a'', ''b'', ''c'']),
          (''g'', [''x'', ''y'']), (''f'', [''c'', ''d''])]" "''f''"]
    by (simp add: stored_def map_find_def empty_state_def char_eval)
qed

text \<open>
  C9. A query for a predicate whose case-folded name is not a key of the store returns
  the empty list of results and the state as it was; it does not fail.
\<close>

theorem query_unknown_predicate:
  assumes "map_find (facts s) (toLower P) = None"
  shows "query s P pattern = (s, [])"
  using assms by (simp add: query_def)

theorem query_unknown_predicate_witness:
  "map_find (facts \<lparr>facts = [(''parent'', [[''john'', ''mary'']])], cout = []\<rparr>)
     (toLower ''Likes'') = None \<and>
   query \<lparr>facts = [(''parent'', [[''john'', ''mary'']])], cout = []\<rparr> ''Likes'' [''john'', ''?'']
   = (\<lparr>facts = [(''parent'', [[''john'', ''mary'']])], cout = []\<rparr>, [])"
proof -
  have h: "map_find (facts \<lparr>facts = [(''parent'', [[''john'', ''mary'']])], cout = []\<rparr>)
             (toLower ''Likes'') = None"
    by (simp add: map_find_def char_eval)
  show ?thesis
    using h query_unknown_predicate [OF h, of "[''john'', ''?'']"] by simp
qed

section \<open>Properties of the query engine\<close>

lemma find_at_bound:
  "find_at pat str i = r \<Longrightarrow> r \<noteq> npos \<Longrightarrow> i \<le> r \<and> r + length pat \<le> i + length str"
proof (induction str arbitrary: i)
  case Nil
  then show ?case by (auto split: if_splits)
next
  case (Cons c cs)
  show ?case
  proof (cases "take (length pat) (c # cs) = pat")
    case True
    then have "length (take (length pat) (c # cs)) = length pat"
      by simp
    then have "length pat \<le> length (c # cs)"
      by (simp only: length_take)
    with True Cons.prems show ?thesis by simp
  next
    case False
    with Cons.prems have "find_at pat cs (Suc i) = r" by simp
    from Cons.IH [OF this Cons.prems(2)] show ?thesis by simp
  qed
qed

lemma str_find_bound:
  "str_find str pat pos \<noteq> npos \<Longrightarrow>
     pos \<le> str_find str pat pos \<and> str_find str pat pos + length pat \<le> length str"
  using find_at_bound [of pat "drop pos str" pos "str_find str pat pos"]
  by (auto simp: str_find_def split: if_splits)

lemma str_find_beyond: "length str < pos \<Longrightarrow> str_find str pat pos = npos"
  by (simp add: str_find_def)

lemma size_t_add_le: "size_t_add a b \<le> a + b"
  by (simp add: size_t_add_def)

lemma size_t_add_npos: "0 < k \<Longrightarrow> k \<le> 2 ^ 64 \<Longrightarrow> size_t_add npos k = k - 1"
  by (simp add: size_t_add_def npos_def mod_if)

lemma substr_after_find:
  assumes "0 < k" "k \<le> 2 ^ 64" "length pat = k" "k - 1 \<le> length str"
  shows "substr str (size_t_add (str_find str pat 0) k)
         = Inr (drop (size_t_add (str_find str pat 0) k) str)"
proof (cases "str_find str pat 0 = npos")
  case True
  then show ?thesis
    using assms by (simp add: substr_def size_t_add_npos)
next
  case False
  from str_find_bound [OF this] have "str_find str pat 0 + k \<le> length str"
    using assms by simp
  then have "size_t_add (str_find str pat 0) k \<le> length str"
    using size_t_add_le [of "str_find str pat 0" k] by linarith
  then show ?thesis by (simp add: substr_def)
qed

lemma str_find_length: "str_find str pat 0 \<noteq> npos \<Longrightarrow> length pat \<le> length str"
  using str_find_bound [of str pat 0] by simp

lemma extractRelation_total: "\<exists>r. extractRelation question = Inr r"
  by (auto simp: extractRelation_def Let_def bind_def substr_n_def str_find_beyond)

lemma extractObject_after_of:
  assumes "str_find question ''of '' 0 \<noteq> npos"
  shows "\<exists>w. extractObject question (size_t_add (str_find question ''of '' 0) 3) = Inr w"
proof -
  have "2 \<le> length question"
    using str_find_length [OF assms] by simp
  then have "substr question (size_t_add (str_find question ''of '' 0) 3)
        = Inr (drop (size_t_add (str_find question ''of '' 0) 3) question)"
    by (intro substr_after_find) simp_all
  then show ?thesis by (simp add: extractObject_def bind_def)
qed

lemma query_eq: "query s p pattern = (s, filter (spec_matches pattern) (stored s (toLower p)))"
  using query_store [of s p pattern] query_results [of s p pattern]
  by (metis prod.collapse)

lemma cout_write_twice: "cout_write (cout_write s a) b = cout_write s (a @ b)"
  by (simp add: cout_write_def)

lemma stored_cout_write: "stored (cout_write s x) k = stored s k"
  by (simp add: stored_def)

lemma query_cout_write:
  "query (cout_write s x) p pattern = (cout_write s x, snd (query s p pattern))"
  by (simp add: query_eq stored_cout_write)

lemma write_results_text:
  "write_results s results index =
     cout_write s (concat (map (\<lambda>r. if index < length r then ''  - '' @ r ! index @ ''\<newline>'' else [])
                             results))"
proof (induction results arbitrary: s)
  case Nil
  then show ?case by (simp add: cout_write_def)
next
  case (Cons r rs)
  then show ?case by (simp add: cout_write_twice)
qed

lemma query_result_length:
  "r \<in> set (snd (query s p pattern)) \<Longrightarrow> length r = length pattern"
  by (auto simp: query_results spec_matches_def dest: list_all2_lengthD)

lemma printResults_text:
  assumes "\<And>r. r \<in> set results \<Longrightarrow> index < length r"
  shows "printResults s results label index = cout_write s (results_text results label index)"
proof -
  have "map (\<lambda>r. if index < length r then ''  - '' @ r ! index @ ''\<newline>'' else []) results
        = map (\<lambda>v. ''  - '' @ v @ ''\<newline>'') (map (\<lambda>r. r ! index) results)"
    using assms by (induction results) auto
  then have "write_results s' results index
        = cout_write s' (concat (map (\<lambda>v. ''  - '' @ v @ ''\<newline>'') (map (\<lambda>r. r ! index) results)))"
    for s'
    by (simp only: write_results_text)
  then show ?thesis
    by (simp add: printResults_def results_text_def labeled_list_def cout_write_twice)
qed

lemma printResults_query:
  "index < length pattern \<Longrightarrow>
   printResults s' (snd (query s p pattern)) label index
   = cout_write s' (results_text (snd (query s p pattern)) label index)"
  by (rule printResults_text) (simp add: query_result_length)

lemma answer_yes_no_text: "answer_yes_no s results = cout_write s (yes_no_text results)"
  by (simp add: answer_yes_no_def yes_no_text_def)

lemma processQuery_who:
  assumes "str_find (toLower q) ''who is the'' 0 \<noteq> npos"
    and "str_find (toLower q) ''of '' 0 \<noteq> npos"
  shows "\<exists>relation object. processQuery s q =
     Inr (cout_write s (query_echo q @
            results_text (snd (query s relation [''?'', object])) ''Who'' 0))"
proof -
  obtain relation where r: "extractRelation (toLower q) = Inr relation"
    using extractRelation_total by blast
  obtain object where ob:
    "extractObject (toLower q) (size_t_add (str_find (toLower q) ''of '' 0) 3) = Inr object"
    using extractObject_after_of [OF assms(2)] by blast
  have "processQuery s q =
     Inr (cout_write s (query_echo q @
            results_text (snd (query s relation [''?'', object])) ''Who'' 0))"
    using assms
    by (simp add: processQuery_def Let_def r ob bind_def query_cout_write printResults_query
        cout_write_twice query_echo_def)
  then show ?thesis by blast
qed

lemma processQuery_who_no_of:
  assumes "str_find (toLower q) ''who is the'' 0 \<noteq> npos"
    and "str_find (toLower q) ''of '' 0 = npos"
  shows "processQuery s q = Inr (cout_write s (query_echo q))"
  using assms by (simp add: processQuery_def Let_def query_echo_def)

lemma processQuery_what_does:
  assumes "str_find (toLower q) ''who is the'' 0 = npos"
    and "str_find (toLower q) ''what does'' 0 \<noteq> npos"
  shows "processQuery s q =
     Inr (cout_write s (query_echo q @
       (let words = map removePunctuation
                      (extract_words []
                         (drop (size_t_add (str_find (toLower q) ''what does '' 0) 10)
                            (toLower q)))
        in if 2 \<le> length words
           then results_text (snd (query s (words ! 1) [words ! 0, ''?''])) ''Answer'' 1
           else [])))"
proof -
  have "9 \<le> length (toLower q)"
    using str_find_length [OF assms(2)] by simp
  then have sub: "substr (toLower q) (size_t_add (str_find (toLower q) ''what does '' 0) 10)
        = Inr (drop (size_t_add (str_find (toLower q) ''what does '' 0) 10) (toLower q))"
    by (intro substr_after_find) simp_all
  show ?thesis
    using assms
    by (simp add: processQuery_def Let_def sub bind_def query_cout_write printResults_query
        cout_write_twice query_echo_def)
qed

lemma processQuery_where:
  assumes "str_find (toLower q) ''who is the'' 0 = npos"
    and "str_find (toLower q) ''what does'' 0 = npos"
    and "str_find (toLower q) ''where does'' 0 \<noteq> npos"
    and "str_find (toLower q) ''live'' 0 \<noteq> npos"
  shows "processQuery s q =
     Inr (cout_write s (query_echo q @
       results_text
         (snd (query s ''lives_in''
            [removePunctuation (toLower (extract_word
               (drop (size_t_add (str_find (toLower q) ''where does '' 0) 11) (toLower q)))),
             ''?'']))
         ''Location'' 1))"
proof -
  have "10 \<le> length (toLower q)"
    using str_find_length [OF assms(3)] by simp
  then have sub: "substr (toLower q) (size_t_add (str_find (toLower q) ''where does '' 0) 11)
        = Inr (drop (size_t_add (str_find (toLower q) ''where does '' 0) 11) (toLower q))"
    by (intro substr_after_find) simp_all
  show ?thesis
    using assms
    by (simp add: processQuery_def Let_def sub bind_def query_cout_write printResults_query
        cout_write_twice query_echo_def)
qed

lemma processQuery_is:
  assumes "str_find (toLower q) ''who is the'' 0 = npos"
    and "str_find (toLower q) ''what does'' 0 = npos"
    and "\<not> (str_find (toLower q) ''where does'' 0 \<noteq> npos \<and> str_find (toLower q) ''live'' 0 \<noteq> npos)"
    and "str_find (toLower q) ''is '' 0 = 0"
  shows "processQuery s q =
     Inr (cout_write s (query_echo q @
       (let words = map removePunctuation (extract_words [] (toLower q))
        in if length words = 3
           then yes_no_text (snd (query s (words ! 2) [words ! 1]))
           else if 4 \<le> length words
           then yes_no_text (snd (query s (words ! 2) [words ! 1, words ! 3]))
           else [])))"
  using assms
  by (auto simp add: processQuery_def Let_def query_cout_write answer_yes_no_text
      cout_write_twice query_echo_def)

lemma processQuery_other:
  assumes "str_find (toLower q) ''who is the'' 0 = npos"
    and "str_find (toLower q) ''what does'' 0 = npos"
    and "\<not> (str_find (toLower q) ''where does'' 0 \<noteq> npos \<and> str_find (toLower q) ''live'' 0 \<noteq> npos)"
    and "str_find (toLower q) ''is '' 0 \<noteq> 0"
  shows "processQuery s q =
     Inr (cout_write s (query_echo q @ ''Could not understand query format.\<newline>''))"
  using assms
  by (auto simp add: processQuery_def Let_def cout_write_twice query_echo_def)

lemma results_text_nonempty: "results_text rs label index \<noteq> []"
  by (simp add: results_text_def labeled_list_def)

lemma yes_no_text_cases:
  "yes_no_text rs = ''Answer: Yes\<newline>'' \<or> yes_no_text rs = ''Answer: No (or unknown)\<newline>''"
  by (simp add: yes_no_text_def)

lemma cout_write_eq: "cout_write s x = s\<lparr>cout := cout s @ x\<rparr>"
  by (simp add: cout_write_def)

text \<open>
  C6 (as amended). For every question that supplies the operands of its pattern,
  \<open>processQuery\<close> returns normally, leaves the facts as they are and appends to the
  output the echo of the question followed by an answer that is not empty: the
  "could not understand" message, "Yes", "No (or unknown)", or the rendering of the result
  of a query, which is the "no matches" message or a labeled list with one slot value for
  each matching fact, in the order of the store.
\<close>

theorem processQuery_rendering:
  assumes "\<not> no_operands q"
  shows "\<exists>ans. processQuery s q = Inr (s\<lparr>cout := cout s @ query_echo q @ ans\<rparr>) \<and> ans \<noteq> [] \<and>
     (ans = ''Could not understand query format.\<newline>'' \<or>
      ans = ''Answer: Yes\<newline>'' \<or>
      ans = ''Answer: No (or unknown)\<newline>'' \<or>
      (\<exists>predicate pattern label index. index < length pattern \<and>
         ans = results_text (snd (query s predicate pattern)) label index))"
proof -
  let ?ql = "toLower q"
  let ?list = "\<lambda>ans. \<exists>predicate pattern label index. index < length pattern \<and>
         ans = results_text (snd (query s predicate pattern)) label index"
  consider
    (who) "str_find ?ql ''who is the'' 0 \<noteq> npos"
  | (what) "str_find ?ql ''who is the'' 0 = npos" "str_find ?ql ''what does'' 0 \<noteq> npos"
  | (where_live) "str_find ?ql ''who is the'' 0 = npos" "str_find ?ql ''what does'' 0 = npos"
      "str_find ?ql ''where does'' 0 \<noteq> npos" "str_find ?ql ''live'' 0 \<noteq> npos"
  | (is_q) "str_find ?ql ''who is the'' 0 = npos" "str_find ?ql ''what does'' 0 = npos"
      "\<not> (str_find ?ql ''where does'' 0 \<noteq> npos \<and> str_find ?ql ''live'' 0 \<noteq> npos)"
      "str_find ?ql ''is '' 0 = 0"
  | (other) "str_find ?ql ''who is the'' 0 = npos" "str_find ?ql ''what does'' 0 = npos"
      "\<not> (str_find ?ql ''where does'' 0 \<noteq> npos \<and> str_find ?ql ''live'' 0 \<noteq> npos)"
      "str_find ?ql ''is '' 0 \<noteq> 0"
    by blast
  then show ?thesis
  proof cases
    case who
    with assms have "str_find ?ql ''of '' 0 \<noteq> npos"
      by (simp add: no_operands_def Let_def)
    from processQuery_who [OF who this, of s] obtain relation object where
      "processQuery s q = Inr (cout_write s (query_echo q @
            results_text (snd (query s relation [''?'', object])) ''Who'' 0))"
      by blast
    moreover have "?list (results_text (snd (query s relation [''?'', object])) ''Who'' 0)"
      by (intro exI [of _ relation] exI [of _ "[''?'', object]"] exI [of _ "''Who''"] exI [of _ 0])
        simp
    ultimately show ?thesis
      using results_text_nonempty by (simp only: cout_write_eq) blast
  next
    case what
    let ?words = "map removePunctuation
                      (extract_words []
                         (drop (size_t_add (str_find ?ql ''what does '' 0) 10) ?ql))"
    from assms what have two: "2 \<le> length ?words"
      by (simp add: no_operands_def Let_def)
    have "processQuery s q = Inr (cout_write s (query_echo q @
            results_text (snd (query s (?words ! 1) [?words ! 0, ''?''])) ''Answer'' 1))"
      using processQuery_what_does [OF what, of s] two by (simp add: Let_def)
    moreover have "?list (results_text (snd (query s (?words ! 1) [?words ! 0, ''?''])) ''Answer'' 1)"
      by (intro exI [of _ "?words ! 1"] exI [of _ "[?words ! 0, ''?'']"] exI [of _ "''Answer''"]
          exI [of _ 1]) simp
    ultimately show ?thesis
      using results_text_nonempty by (simp only: cout_write_eq) blast
  next
    case where_live
    let ?subject = "removePunctuation (toLower (extract_word
               (drop (size_t_add (str_find ?ql ''where does '' 0) 11) ?ql)))"
    have "processQuery s q = Inr (cout_write s (query_echo q @
            results_text (snd (query s ''lives_in'' [?subject, ''?''])) ''Location'' 1))"
      using processQuery_where [OF where_live, of s] .
    moreover have "?list (results_text (snd (query s ''lives_in'' [?subject, ''?''])) ''Location'' 1)"
      by (intro exI [of _ "''lives_in''"] exI [of _ "[?subject, ''?'']"] exI [of _ "''Location''"]
          exI [of _ 1]) simp
    ultimately show ?thesis
      using results_text_nonempty by (simp only: cout_write_eq) blast
  next
    case is_q
    let ?words = "map removePunctuation (extract_words [] ?ql)"
    from assms is_q have three: "3 \<le> length ?words"
      by (simp add: no_operands_def Let_def)
    have "\<exists>rs. processQuery s q = Inr (cout_write s (query_echo q @ yes_no_text rs))"
    proof (cases "length ?words = 3")
      case True
      then show ?thesis
        using processQuery_is [OF is_q, of s] by (simp add: Let_def) blast
    next
      case False
      with three have "4 \<le> length ?words" by linarith
      with False show ?thesis
        using processQuery_is [OF is_q, of s] by (simp add: Let_def) blast
    qed
    then obtain rs where "processQuery s q = Inr (cout_write s (query_echo q @ yes_no_text rs))"
      by blast
    then show ?thesis
      using yes_no_text_cases [of rs] by (simp only: cout_write_eq) auto
  next
    case other
    from processQuery_other [OF other, of s] show ?thesis
      by (simp only: cout_write_eq) auto
  qed
qed

theorem processQuery_rendering_witness:
  "\<not> no_operands ''Who is the parent of Mary?'' \<and>
   (\<exists>ans. processQuery \<lparr>facts = demo_facts, cout = []\<rparr> ''Who is the parent of Mary?''
          = Inr \<lparr>facts = demo_facts, cout = query_echo ''Who is the parent of Mary?'' @ ans\<rparr> \<and>
          ans \<noteq> [])"
proof -
  have h: "\<not> no_operands ''Who is the parent of Mary?''"
    by (simp add: no_operands_def Let_def string_eval char_eval)
  show ?thesis
    using h processQuery_rendering [OF h, of "\<lparr>facts = demo_facts, cout = []\<rparr>"] by auto
qed

text \<open>
  C6 as stated fails: for "Who is the king?", which contains "who is the" and no "of ",
  nothing follows the echo of the question.
\<close>

theorem processQuery_rendering_counterexample:
  "processQuery \<lparr>facts = demo_facts, cout = []\<rparr> ''Who is the king?''
   = Inr \<lparr>facts = demo_facts, cout = query_echo ''Who is the king?''\<rparr>"
  by (simp add: processQuery_def Let_def query_echo_def cout_write_def string_eval char_eval)

section \<open>Properties of the statement parser\<close>

lemma split_str_sentences:
  "split_str ''John is the parent of Mary'' CHR '' ''
     = Inr [''John'', ''is'', ''the'', ''parent'', ''of'', ''Mary'']"
  "split_str ''John is the parent of Tom'' CHR '' ''
     = Inr [''John'', ''is'', ''the'', ''parent'', ''of'', ''Tom'']"
  "split_str ''John likes pizza'' CHR '' '' = Inr [''John'', ''likes'', ''pizza'']"
  "split_str ''Alice is tall'' CHR '' '' = Inr [''Alice'', ''is'', ''tall'']"
  "split_str ''John lives in Paris'' CHR '' '' = Inr [''John'', ''lives'', ''in'', ''Paris'']"
  by (simp_all add: split_str_def trim_token_def string_eval)

lemma parseText_sentences:
  "parseText s ''John is the parent of Mary''
     = Inr (addFact (cout_write s (parse_echo ''John is the parent of Mary''))
              ''parent'' [''john'', ''mary''])"
  "parseText s ''John is the parent of Tom''
     = Inr (addFact (cout_write s (parse_echo ''John is the parent of Tom''))
              ''parent'' [''john'', ''tom''])"
  "parseText s ''John likes pizza''
     = Inr (addFact (cout_write s (parse_echo ''John likes pizza'')) ''likes'' [''john'', ''pizza''])"
  "parseText s ''Alice is tall''
     = Inr (addFact (cout_write s (parse_echo ''Alice is tall'')) ''tall'' [''alice''])"
  "parseText s ''John lives in Paris''
     = Inr (addFact (cout_write s (parse_echo ''John lives in Paris''))
              ''lives_in'' [''john'', ''paris''])"
  by (simp_all add: parseText_def split_str_sentences Let_def parseRelationship_def
      parseLivesIn_def parseProperty_def parse_echo_def string_eval char_eval)

lemma appended_one_addFact:
  "toLower p = p \<Longrightarrow> appended_one s p a (addFact (cout_write s x) p a)"
  by (simp add: appended_one_def map_find_addFact stored_cout_write)

text \<open>
  C1. From any state, interpreting "John is the parent of Mary" returns normally with
  \<open>[john, mary]\<close> appended under \<open>parent\<close> and every other key as it was; likewise
  "John likes pizza" appends \<open>[john, pizza]\<close> under \<open>likes\<close>, "Alice is tall" appends
  \<open>[alice]\<close> under \<open>tall\<close> and "John lives in Paris" appends \<open>[john, paris]\<close> under
  \<open>lives_in\<close>. From the empty store, each sentence yields the store of that one fact.
\<close>

theorem statement_roundtrip:
  "(\<exists>s'. parseText s ''John is the parent of Mary'' = Inr s' \<and>
         appended_one s ''parent'' [''john'', ''mary''] s') \<and>
   (\<exists>s'. parseText s ''John likes pizza'' = Inr s' \<and>
         appended_one s ''likes'' [''john'', ''pizza''] s') \<and>
   (\<exists>s'. parseText s ''Alice is tall'' = Inr s' \<and>
         appended_one s ''tall'' [''alice''] s') \<and>
   (\<exists>s'. parseText s ''John lives in Paris'' = Inr s' \<and>
         appended_one s ''lives_in'' [''john'', ''paris''] s') \<and>
   map_sum id facts (parseText empty_state ''John is the parent of Mary'')
     = Inr [(''parent'', [[''john'', ''mary'']])] \<and>
   map_sum id facts (parseText empty_state ''John likes pizza'')
     = Inr [(''likes'', [[''john'', ''pizza'']])] \<and>
   map_sum id facts (parseText empty_state ''Alice is tall'')
     = Inr [(''tall'', [[''alice'']])] \<and>
   map_sum id facts (parseText empty_state ''John lives in Paris'')
     = Inr [(''lives_in'', [[''john'', ''paris'']])]"
proof -
  have low: "toLower ''parent'' = ''parent''" "toLower ''likes'' = ''likes''"
    "toLower ''tall'' = ''tall''" "toLower ''lives_in'' = ''lives_in''"
    by (simp_all add: char_eval)
  have fresh: "facts (addFact (cout_write empty_state x) p a) = [(toLower p, [a])]" for x p a
    by (simp add: addFact_def Let_def map_index_def map_find_def empty_state_def cout_write_def)
  show ?thesis
    by (simp add: parseText_sentences appended_one_addFact low fresh)
qed

text \<open>
  C7. The statement parsers read outside the vector of words at the token edges. In
  \<open>parseRelationship\<close>, "is the R of Y" matches at position 0 and the subject
  \<open>words[i-1]\<close> is read at the wrapped index; "X is the R of" matches at position 1
  under the guard \<open>i + 3 < size\<close> and the object \<open>words[i+4]\<close> is read one past the end.
  In \<open>parseLivesIn\<close>, "lives in Y" matches at position 0 and the subject is read at the
  wrapped index. \<open>parseText\<close> reaches each of the three on a sentence of that form.
\<close>

theorem statement_parsers_out_of_bounds:
  "parseRelationship s [''is'', ''the'', r, ''of'', y] = Inl OutOfBounds \<and>
   parseRelationship s [x, ''is'', ''the'', r, ''of''] = Inl OutOfBounds \<and>
   parseLivesIn s [''lives'', ''in'', y] = Inl OutOfBounds \<and>
   parseText s ''is the parent of Mary'' = Inl OutOfBounds \<and>
   parseText s ''John is the parent of'' = Inl OutOfBounds \<and>
   parseText s ''lives in Paris'' = Inl OutOfBounds"
proof -
  have sp: "split_str ''is the parent of Mary'' CHR '' ''
              = Inr [''is'', ''the'', ''parent'', ''of'', ''Mary'']"
    "split_str ''John is the parent of'' CHR '' ''
              = Inr [''John'', ''is'', ''the'', ''parent'', ''of'']"
    "split_str ''lives in Paris'' CHR '' '' = Inr [''lives'', ''in'', ''Paris'']"
    by (simp_all add: split_str_def trim_token_def string_eval)
  have a: "parseRelationship s [''is'', ''the'', r, ''of'', y] = Inl OutOfBounds" for s r y
    by (simp add: parseRelationship_def string_eval char_eval)
  have b: "parseRelationship s [x, ''is'', ''the'', r, ''of''] = Inl OutOfBounds" for s x r
    by (simp add: parseRelationship_def Let_def string_eval char_eval)
  have c: "parseLivesIn s [''lives'', ''in'', y] = Inl OutOfBounds" for s y
    by (simp add: parseLivesIn_def string_eval char_eval)
  show ?thesis
    by (simp add: a b c parseText_def sp Let_def string_eval char_eval)
qed

section \<open>The question round-trip\<close>

lemma parse_all_demo:
  "map_sum id facts
     (parse_all empty_state
        [''John is the parent of Mary'', ''John likes pizza'', ''Alice is tall'',
         ''John lives in Paris'', ''John is the parent of Tom''])
   = Inr demo_facts"
  by (simp add: parseText_sentences addFact_def Let_def map_index_def map_find_def
      empty_state_def cout_write_def demo_facts_def char_eval)

lemmas query_eval = query_def map_index_def map_find_def match_args.simps demo_facts_def
  printResults_def answer_yes_no_def cout_write_def query_echo_def labeled_list_def

text \<open>
  C2. The five sentences build the store of the claim. On that store "Who is the parent
  of Mary?" renders the single value john, "Is Alice tall?" answers Yes, "Where does John
  live?" renders the single value paris and "Is Mary tall?" answers No (or unknown). "Is
  John the parent of Tom?" answers No (or unknown): the yes/no pattern takes the third
  word, "the", as the relation and the fourth, "parent", as the object.
\<close>

theorem question_roundtrip_evaluated:
  "map_sum id facts
     (parse_all empty_state
        [''John is the parent of Mary'', ''John likes pizza'', ''Alice is tall'',
         ''John lives in Paris'', ''John is the parent of Tom''])
   = Inr demo_facts \<and>
   processQuery \<lparr>facts = demo_facts, cout = out\<rparr> ''Who is the parent of Mary?''
   = Inr \<lparr>facts = demo_facts,
          cout = out @ query_echo ''Who is the parent of Mary?'' @ labeled_list ''Who'' [''john'']\<rparr> \<and>
   processQuery \<lparr>facts = demo_facts, cout = out\<rparr> ''Is John the parent of Tom?''
   = Inr \<lparr>facts = demo_facts,
          cout = out @ query_echo ''Is John the parent of Tom?'' @ ''Answer: No (or unknown)\<newline>''\<rparr> \<and>
   processQuery \<lparr>facts = demo_facts, cout = out\<rparr> ''Is Alice tall?''
   = Inr \<lparr>facts = demo_facts,
          cout = out @ query_echo ''Is Alice tall?'' @ ''Answer: Yes\<newline>''\<rparr> \<and>
   processQuery \<lparr>facts = demo_facts, cout = out\<rparr> ''Where does John live?''
   = Inr \<lparr>facts = demo_facts,
          cout = out @ query_echo ''Where does John live?'' @ labeled_list ''Location'' [''paris'']\<rparr> \<and>
   processQuery \<lparr>facts = demo_facts, cout = out\<rparr> ''Is Mary tall?''
   = Inr \<lparr>facts = demo_facts,
          cout = out @ query_echo ''Is Mary tall?'' @ ''Answer: No (or unknown)\<newline>''\<rparr>"
proof -
  have q1: "processQuery \<lparr>facts = demo_facts, cout = out\<rparr> ''Who is the parent of Mary?''
   = Inr \<lparr>facts = demo_facts,
          cout = out @ query_echo ''Who is the parent of Mary?'' @ labeled_list ''Who'' [''john'']\<rparr>"
    by (simp add: processQuery_def Let_def extractRelation_def extractObject_def
        query_eval string_eval char_eval)
  have q2: "processQuery \<lparr>facts = demo_facts, cout = out\<rparr> ''Is John the parent of Tom?''
   = Inr \<lparr>facts = demo_facts,
          cout = out @ query_echo ''Is John the parent of Tom?'' @ ''Answer: No (or unknown)\<newline>''\<rparr>"
    by (simp add: processQuery_def Let_def query_eval string_eval char_eval)
  have q3: "processQuery \<lparr>facts = demo_facts, cout = out\<rparr> ''Is Alice tall?''
   = Inr \<lparr>facts = demo_facts,
          cout = out @ query_echo ''Is Alice tall?'' @ ''Answer: Yes\<newline>''\<rparr>"
    by (simp add: processQuery_def Let_def query_eval string_eval char_eval)
  have q4: "processQuery \<lparr>facts = demo_facts, cout = out\<rparr> ''Where does John live?''
   = Inr \<lparr>facts = demo_facts,
          cout = out @ query_echo ''Where does John live?'' @ labeled_list ''Location'' [''paris'']\<rparr>"
    by (simp add: processQuery_def Let_def query_eval string_eval char_eval)
  have q5: "processQuery \<lparr>facts = demo_facts, cout = out\<rparr> ''Is Mary tall?''
   = Inr \<lparr>facts = demo_facts,
          cout = out @ query_echo ''Is Mary tall?'' @ ''Answer: No (or unknown)\<newline>''\<rparr>"
    by (simp add: processQuery_def Let_def query_eval string_eval char_eval)
  show ?thesis
    by (simp only: parse_all_demo q1 q2 q3 q4 q5)
qed

section \<open>The store is read or appended to\<close>

lemma write_args_out: "\<exists>out. write_args s as = cout_write s out"
proof (induction s as rule: write_args.induct)
  case (1 s)
  have "write_args s [] = cout_write s []" by (simp add: cout_write_def)
  then show ?case by blast
next
  case (2 s a)
  then show ?case by auto
next
  case (3 s a b as)
  then obtain out where "write_args (cout_write (cout_write s a) '', '') (b # as)
      = cout_write (cout_write (cout_write s a) '', '') out"
    by blast
  then have "write_args s (a # b # as) = cout_write s (a @ '', '' @ out)"
    by (simp add: cout_write_twice)
  then show ?case by blast
qed

lemma write_facts_out: "\<exists>out. write_facts name fs s = cout_write s out"
proof (induction fs arbitrary: s)
  case Nil
  have "write_facts name [] s = cout_write s []" by (simp add: cout_write_def)
  then show ?case by blast
next
  case (Cons f fs)
  obtain o1 where o1: "write_args (cout_write s (''  '' @ name @ ''('')) f
      = cout_write (cout_write s (''  '' @ name @ ''('')) o1"
    using write_args_out by blast
  obtain o2 where o2: "write_facts name fs (cout_write s (''  '' @ name @ ''('' @ o1 @ '')\<newline>''))
      = cout_write (cout_write s (''  '' @ name @ ''('' @ o1 @ '')\<newline>'')) o2"
    using Cons.IH by blast
  have "write_facts name (f # fs) s = cout_write s ((''  '' @ name @ ''('' @ o1 @ '')\<newline>'') @ o2)"
    using o1 o2 by (simp add: cout_write_twice)
  then show ?case by blast
qed

lemma write_predicates_out: "\<exists>out. write_predicates m s = cout_write s out"
proof (induction m arbitrary: s)
  case Nil
  have "write_predicates [] s = cout_write s []" by (simp add: cout_write_def)
  then show ?case by blast
next
  case (Cons e m)
  obtain name fs where e: "e = (name, fs)" by (cases e)
  let ?h = "''\<newline>Predicate: '' @ name @ ''\<newline>''"
  obtain o1 where o1: "write_facts name fs (cout_write s ?h) = cout_write (cout_write s ?h) o1"
    using write_facts_out by blast
  obtain o2 where o2: "write_predicates m (cout_write s (?h @ o1)) = cout_write (cout_write s (?h @ o1)) o2"
    using Cons.IH by blast
  have "write_predicates (e # m) s = cout_write s ((?h @ o1) @ o2)"
    using o1 o2 by (simp add: e cout_write_twice)
  then show ?case by blast
qed

lemma printDatabase_out: "\<exists>out. printDatabase s = cout_write s out"
proof -
  let ?h = "''\<newline>========== PROLOG DATABASE ==========\<newline>''"
  obtain o1 where o1: "write_predicates (facts s) (cout_write s ?h) = cout_write (cout_write s ?h) o1"
    using write_predicates_out by blast
  show ?thesis
  proof (cases "facts s = []")
    case True
    then have "printDatabase s = cout_write s (?h @ ''Database is empty.\<newline>'')"
      by (simp add: printDatabase_def Let_def cout_write_twice)
    then show ?thesis by blast
  next
    case False
    then have "printDatabase s
       = cout_write s ((?h @ o1) @ ''=====================================\<newline>\<newline>'')"
      using o1 by (simp add: printDatabase_def Let_def cout_write_twice)
    then show ?thesis by blast
  qed
qed

lemma processQuery_out: "\<exists>out. processQuery s q = Inr (cout_write s out)"
proof -
  let ?ql = "toLower q"
  consider
    (who) "str_find ?ql ''who is the'' 0 \<noteq> npos" "str_find ?ql ''of '' 0 \<noteq> npos"
  | (who_no_of) "str_find ?ql ''who is the'' 0 \<noteq> npos" "str_find ?ql ''of '' 0 = npos"
  | (what) "str_find ?ql ''who is the'' 0 = npos" "str_find ?ql ''what does'' 0 \<noteq> npos"
  | (where_live) "str_find ?ql ''who is the'' 0 = npos" "str_find ?ql ''what does'' 0 = npos"
      "str_find ?ql ''where does'' 0 \<noteq> npos" "str_find ?ql ''live'' 0 \<noteq> npos"
  | (is_q) "str_find ?ql ''who is the'' 0 = npos" "str_find ?ql ''what does'' 0 = npos"
      "\<not> (str_find ?ql ''where does'' 0 \<noteq> npos \<and> str_find ?ql ''live'' 0 \<noteq> npos)"
      "str_find ?ql ''is '' 0 = 0"
  | (other) "str_find ?ql ''who is the'' 0 = npos" "str_find ?ql ''what does'' 0 = npos"
      "\<not> (str_find ?ql ''where does'' 0 \<noteq> npos \<and> str_find ?ql ''live'' 0 \<noteq> npos)"
      "str_find ?ql ''is '' 0 \<noteq> 0"
    by blast
  then show ?thesis
  proof cases
    case who
    from processQuery_who [OF who, of s] show ?thesis by blast
  next
    case who_no_of
    from processQuery_who_no_of [OF who_no_of, of s] show ?thesis by blast
  next
    case what
    from processQuery_what_does [OF what, of s] show ?thesis by blast
  next
    case where_live
    from processQuery_where [OF where_live, of s] show ?thesis by blast
  next
    case is_q
    from processQuery_is [OF is_q, of s] show ?thesis by blast
  next
    case other
    from processQuery_other [OF other, of s] show ?thesis by blast
  qed
qed

lemma parseRelationship_from_frame:
  "parseRelationship_from s words i = Inr s' \<Longrightarrow> s' = s \<or> (\<exists>p a. s' = addFact s p a)"
proof (induction s words i rule: parseRelationship_from.induct)
  case (1 s words i)
  show ?case
  proof (cases "i < length words")
    case False
    with "1.prems" show ?thesis
      by (subst (asm) parseRelationship_from.simps)
        (auto simp del: parseRelationship_from.simps split: if_splits)
  next
    case True
    show ?thesis
    proof (cases "toLower (words ! i) = ''is'' \<and> i + 3 < length words \<and>
                  toLower (words ! (i + 1)) = ''the'' \<and> toLower (words ! (i + 3)) = ''of''")
      case hit: True
      with True "1.prems" show ?thesis
        by (subst (asm) parseRelationship_from.simps)
          (auto simp del: parseRelationship_from.simps simp: Let_def split: sum.splits)
    next
      case miss: False
      with True "1.prems" have "parseRelationship_from s words (Suc i) = Inr s'"
        by (subst (asm) parseRelationship_from.simps)
          (auto simp del: parseRelationship_from.simps simp: Let_def)
      with "1.IH" [OF True refl miss] show ?thesis by blast
    qed
  qed
qed

lemma parseLivesIn_from_frame:
  "parseLivesIn_from s words i = Inr s' \<Longrightarrow> s' = s \<or> (\<exists>p a. s' = addFact s p a)"
proof (induction s words i rule: parseLivesIn_from.induct)
  case (1 s words i)
  show ?case
  proof (cases "i < length words")
    case False
    with "1.prems" show ?thesis
      by (subst (asm) parseLivesIn_from.simps)
        (auto simp del: parseLivesIn_from.simps split: if_splits)
  next
    case True
    show ?thesis
    proof (cases "toLower (words ! i) = ''lives'' \<and> i + 2 < length words \<and>
                  toLower (words ! (i + 1)) = ''in''")
      case hit: True
      with True "1.prems" show ?thesis
        by (subst (asm) parseLivesIn_from.simps)
          (auto simp del: parseLivesIn_from.simps simp: Let_def split: sum.splits)
    next
      case miss: False
      with True "1.prems" have "parseLivesIn_from s words (Suc i) = Inr s'"
        by (subst (asm) parseLivesIn_from.simps)
          (auto simp del: parseLivesIn_from.simps simp: Let_def)
      with "1.IH" [OF True miss] show ?thesis by blast
    qed
  qed
qed

lemma parseProperty_frame: "parseProperty s words = s \<or> (\<exists>p a. parseProperty s words = addFact s p a)"
  by (auto simp: parseProperty_def)

lemma facts_addFact_cout_write: "facts (addFact (cout_write s x) p a) = facts (addFact s p a)"
  by (simp add: addFact_def Let_def split: prod.splits)

lemma parseText_frame:
  assumes "parseText s t = Inr s'"
  shows "facts s' = facts s \<or> (\<exists>p a. facts s' = facts (addFact s p a))"
proof -
  let ?s1 = "cout_write s (parse_echo t)"
  have step: "s'' = ?s1 \<or> (\<exists>p a. s'' = addFact ?s1 p a) \<Longrightarrow>
     facts s'' = facts s \<or> (\<exists>p a. facts s'' = facts (addFact s p a))" for s''
    using facts_addFact_cout_write [of s "parse_echo t"] by fastforce
  from assms obtain words where w: "split_str t CHR '' '' = Inr words"
    by (cases "split_str t CHR '' ''") (auto simp: parseText_def bind_def Let_def)
  have rel: "parseRelationship ?s1 words = Inr s' \<Longrightarrow> ?thesis"
    using parseRelationship_from_frame [of ?s1 words 0 s'] step [of s']
    unfolding parseRelationship_def by blast
  have liv: "parseLivesIn ?s1 words = Inr s' \<Longrightarrow> ?thesis"
    using parseLivesIn_from_frame [of ?s1 words 0 s'] step [of s']
    unfolding parseLivesIn_def by blast
  have prty: "s' = parseProperty ?s1 words \<Longrightarrow> ?thesis"
    using parseProperty_frame [of ?s1 words] step [of s'] by metis
  have msg: "s' = cout_write ?s1 x \<Longrightarrow> ?thesis" for x
    by simp
  let ?tl = "toLower t"
  from assms w have body:
    "(if words = [] then Inr (cout_write ?s1 ''Empty sentence, nothing to parse.\<newline>'')
      else if str_find ?tl ''lives in'' 0 \<noteq> npos then parseLivesIn ?s1 words
      else if str_find ?tl ''is the'' 0 \<noteq> npos \<and> str_find ?tl '' of '' 0 \<noteq> npos
      then parseRelationship ?s1 words
      else if str_find ?tl '' is '' 0 \<noteq> npos
      then (if length words = 3 then Inr (parseProperty ?s1 words)
            else parseRelationship ?s1 words)
      else if 3 \<le> length words then parseRelationship ?s1 words
      else Inr (cout_write ?s1 ''Could not parse sentence pattern.\<newline>'')) = Inr s'"
    unfolding parseText_def bind_def Let_def parse_echo_def by simp
  show ?thesis
  proof (cases "words = []")
    case True
    with body show ?thesis using msg by auto
  next
    case nonempty: False
    show ?thesis
    proof (cases "str_find ?tl ''lives in'' 0 \<noteq> npos")
      case True
      with body nonempty show ?thesis using liv by simp
    next
      case no_lives: False
      show ?thesis
      proof (cases "str_find ?tl ''is the'' 0 \<noteq> npos \<and> str_find ?tl '' of '' 0 \<noteq> npos")
        case True
        with body nonempty no_lives show ?thesis using rel by simp
      next
        case no_rel: False
        show ?thesis
        proof (cases "str_find ?tl '' is '' 0 \<noteq> npos")
          case True
          show ?thesis
          proof (cases "length words = 3")
            case three: True
            with body nonempty no_lives no_rel True have "s' = parseProperty ?s1 words"
              by auto
            then show ?thesis by (rule prty)
          next
            case False
            with body nonempty no_lives no_rel True have "parseRelationship ?s1 words = Inr s'"
              by auto
            then show ?thesis by (rule rel)
          qed
        next
          case no_is: False
          show ?thesis
          proof (cases "3 \<le> length words")
            case True
            with body nonempty no_lives no_rel no_is have "parseRelationship ?s1 words = Inr s'"
              by auto
            then show ?thesis by (rule rel)
          next
            case False
            with body nonempty no_lives no_rel no_is
            have "s' = cout_write ?s1 ''Could not parse sentence pattern.\<newline>''"
              by auto
            then show ?thesis by (rule msg)
          qed
        qed
      qed
    qed
  qed
qed

lemma addFact_out: "\<exists>out. cout (addFact s p a) = cout s @ out"
proof -
  obtain m v where mv: "map_index (facts s) (toLower p) = (m, v)"
    by (cases "map_index (facts s) (toLower p)")
  let ?s1 = "s\<lparr>facts := map_assign (toLower p) (v @ [a]) m\<rparr>"
  obtain out where out: "write_args (cout_write ?s1 (''Added fact: '' @ p @ ''('')) a
      = cout_write (cout_write ?s1 (''Added fact: '' @ p @ ''('')) out"
    using write_args_out by blast
  have "addFact s p a = cout_write ?s1 ((''Added fact: '' @ p @ ''('') @ out @ '')\<newline>'')"
    using mv out by (simp add: addFact_def Let_def cout_write_twice)
  then show ?thesis by (simp add: cout_write_def)
qed

lemma appended_one_addFact_any: "appended_one s (toLower p) a (addFact s p a)"
  by (simp add: appended_one_def map_find_addFact)

lemma appended_one_facts: "facts s' = facts s'' \<Longrightarrow> appended_one s k t s'' \<Longrightarrow> appended_one s k t s'"
  by (simp add: appended_one_def)

text \<open>
  C8. A query returns the state it was given. The dump and the processing of any
  question return normally with the facts as they were, the output extended. \<open>addFact\<close>
  extends the output and appends the one tuple to the sequence under the case-folded
  predicate, every other sequence and the tuples before it being as they were. A sentence
  that \<open>parseText\<close> accepts leaves the facts as they were or appends one tuple in that way.
\<close>

theorem store_unchanged_or_appended:
  "fst (query s p pattern) = s \<and>
   (\<exists>out. printDatabase s = s\<lparr>cout := cout s @ out\<rparr>) \<and>
   (\<exists>out. processQuery s q = Inr (s\<lparr>cout := cout s @ out\<rparr>)) \<and>
   (\<exists>out. cout (addFact s p a) = cout s @ out) \<and>
   appended_one s (toLower p) a (addFact s p a) \<and>
   (case parseText s t of
      Inl e \<Rightarrow> True
    | Inr s' \<Rightarrow> facts s' = facts s \<or> (\<exists>p' a'. appended_one s (toLower p') a' s'))"
proof -
  have pt: "(case parseText s t of
      Inl e \<Rightarrow> True
    | Inr s' \<Rightarrow> facts s' = facts s \<or> (\<exists>p' a'. appended_one s (toLower p') a' s'))"
  proof (cases "parseText s t")
    case (Inl e)
    then show ?thesis by simp
  next
    case (Inr s')
    from parseText_frame [OF Inr]
    have "facts s' = facts s \<or> (\<exists>p' a'. appended_one s (toLower p') a' s')"
      using appended_one_facts appended_one_addFact_any by blast
    with Inr show ?thesis by simp
  qed
  show ?thesis
    using query_store [of s p pattern] printDatabase_out [of s] processQuery_out [of s q]
      addFact_out [of s p a] appended_one_addFact_any [of s p a] pt
    by (simp only: cout_write_eq)
qed

lemma find_at_sound:
  "find_at pat str i = r \<Longrightarrow> r \<noteq> npos \<Longrightarrow>
     i \<le> r \<and> take (length pat) (drop (r - i) str) = pat"
proof (induction str arbitrary: i)
  case Nil
  then show ?case by (auto split: if_splits)
next
  case (Cons c cs)
  show ?case
  proof (cases "take (length pat) (c # cs) = pat")
    case True
    with Cons.prems show ?thesis by simp
  next
    case False
    with Cons.prems have "find_at pat cs (Suc i) = r" by simp
    from Cons.IH [OF this Cons.prems(2)]
    have "Suc i \<le> r" and "take (length pat) (drop (r - Suc i) cs) = pat" by simp_all
    moreover from \<open>Suc i \<le> r\<close> have "r - i = Suc (r - Suc i)" by simp
    ultimately show ?thesis by simp
  qed
qed

lemma find_at_complete:
  "take (length pat) (drop j str) = pat \<Longrightarrow> j \<le> length str \<Longrightarrow> i + j < npos \<Longrightarrow>
     find_at pat str i \<noteq> npos"
proof (induction str arbitrary: i j)
  case Nil
  then show ?case by auto
next
  case (Cons c cs)
  show ?case
  proof (cases "take (length pat) (c # cs) = pat")
    case True
    with Cons.prems show ?thesis by simp
  next
    case False
    with Cons.prems obtain j' where j: "j = Suc j'"
      by (cases j) auto
    with Cons.prems have "take (length pat) (drop j' cs) = pat" "j' \<le> length cs"
      "Suc i + j' < npos"
      by simp_all
    from Cons.IH [OF this] False show ?thesis by simp
  qed
qed

lemma str_find_prefix:
  assumes "length str \<le> npos" and "str_find str (pat @ x) 0 \<noteq> npos"
  shows "str_find str pat 0 \<noteq> npos"
proof -
  let ?r = "str_find str (pat @ x) 0"
  have "find_at (pat @ x) str 0 = ?r" by (simp add: str_find_def)
  from find_at_sound [OF this assms(2)]
  have occ: "take (length (pat @ x)) (drop ?r str) = pat @ x" by simp
  have "take (length pat) (take (length (pat @ x)) (drop ?r str)) = pat"
    by (simp only: occ) simp
  then have "take (length pat) (drop ?r str) = pat"
    by (simp add: min_def)
  moreover have "?r \<le> length str"
    using str_find_bound [OF assms(2)] by simp
  moreover from this assms have "0 + ?r < npos"
    by simp
  ultimately have "find_at pat str 0 \<noteq> npos"
    by (rule find_at_complete)
  then show ?thesis by (simp add: str_find_def)
qed

text \<open>
  C10 (as amended). For every question that fits a \<open>size_t\<close> length, does not contain
  "who is the" and contains "what does " with at least two words after its first
  occurrence, \<open>processQuery\<close> takes the first of these words as subject and the second as
  relation, with the punctuation stripped, queries \<open>relation(subject, ?)\<close> and appends
  to the output the echo of the question and the rendering of the second slot of every
  matching fact ("no matches" when there is none), the facts being as they were.
\<close>

theorem what_does_pattern:
  assumes "length q < 2 ^ 64"
    and "str_find (toLower q) ''who is the'' 0 = npos"
    and "str_find (toLower q) ''what does '' 0 \<noteq> npos"
    and "2 \<le> length (what_does_tokens q)"
  shows "processQuery s q = Inr (s\<lparr>cout := cout s @ query_echo q @ what_does_answer s q\<rparr>)"
proof -
  let ?ql = "toLower q"
  let ?pos = "str_find ?ql ''what does '' 0"
  have len: "length ?ql \<le> npos"
    using assms(1) by (simp add: toLower_def npos_def)
  have bound: "?pos + 10 \<le> length ?ql"
    using str_find_bound [OF assms(3)] by simp
  then have add: "size_t_add ?pos 10 = ?pos + 10"
    using len by (simp add: size_t_add_def npos_def)
  have what: "str_find ?ql ''what does'' 0 \<noteq> npos"
    using str_find_prefix [OF len, of "''what does''" "'' ''"] assms(3) by simp
  show ?thesis
    using processQuery_what_does [OF assms(2) what, of s] assms(4)
    by (simp add: add Let_def what_does_tokens_def what_does_rest_def what_does_answer_def
        query_results cout_write_def)
qed

theorem what_does_pattern_witness:
  "length ''What does John likes?'' < 2 ^ 64 \<and>
   str_find (toLower ''What does John likes?'') ''who is the'' 0 = npos \<and>
   str_find (toLower ''What does John likes?'') ''what does '' 0 \<noteq> npos \<and>
   2 \<le> length (what_does_tokens ''What does John likes?'') \<and>
   processQuery \<lparr>facts = demo_facts, cout = []\<rparr> ''What does John likes?''
   = Inr \<lparr>facts = demo_facts,
          cout = query_echo ''What does John likes?'' @ labeled_list ''Answer'' [''pizza'']\<rparr>"
proof -
  have h1: "length ''What does John likes?'' < 2 ^ 64"
    by simp
  have h2: "str_find (toLower ''What does John likes?'') ''who is the'' 0 = npos"
    by (simp add: string_eval char_eval)
  have h3: "str_find (toLower ''What does John likes?'') ''what does '' 0 \<noteq> npos"
    by (simp add: string_eval char_eval)
  have tokens: "what_does_tokens ''What does John likes?'' = [''john'', ''likes'']"
    by (simp add: what_does_tokens_def what_does_rest_def Let_def string_eval char_eval)
  have h4: "2 \<le> length (what_does_tokens ''What does John likes?'')"
    by (simp add: tokens)
  have ans: "what_does_answer \<lparr>facts = demo_facts, cout = []\<rparr> ''What does John likes?''
      = labeled_list ''Answer'' [''pizza'']"
    by (simp add: what_does_answer_def tokens Let_def stored_def map_find_def demo_facts_def
        spec_matches_def results_text_def char_eval)
  show ?thesis
    using h1 h2 h3 h4 what_does_pattern [OF h1 h2 h3 h4, of "\<lparr>facts = demo_facts, cout = []\<rparr>"]
    by (simp add: ans)
qed

text \<open>
  C10 as stated fails: a question that contains "what does" and also "who is the" is
  answered by the "who" pattern, which is tested first.
\<close>

theorem what_does_pattern_counterexample:
  "str_find (toLower ''What does John likes? Who is the parent of Mary?'') ''what does'' 0 \<noteq> npos \<and>
   what_does_answer \<lparr>facts = demo_facts, cout = []\<rparr>
       ''What does John likes? Who is the parent of Mary?''
     = labeled_list ''Answer'' [''pizza''] \<and>
   processQuery \<lparr>facts = demo_facts, cout = []\<rparr>
       ''What does John likes? Who is the parent of Mary?''
     = Inr \<lparr>facts = demo_facts,
            cout = query_echo ''What does John likes? Who is the parent of Mary?'' @
                   labeled_list ''Who'' [''john'']\<rparr> \<and>
   processQuery \<lparr>facts = demo_facts, cout = []\<rparr>
       ''What does John likes? Who is the parent of Mary?''
     \<noteq> Inr \<lparr>facts = demo_facts,
            cout = query_echo ''What does John likes? Who is the parent of Mary?'' @
                   what_does_answer \<lparr>facts = demo_facts, cout = []\<rparr>
                     ''What does John likes? Who is the parent of Mary?''\<rparr>"
proof -
  have c1: "str_find (toLower ''What does John likes? Who is the parent of Mary?'') ''what does'' 0 \<noteq> npos"
    by (simp add: string_eval char_eval)
  have tokens: "what_does_tokens ''What does John likes? Who is the parent of Mary?''
      = [''john'', ''likes'', ''who'', ''is'', ''the'', ''parent'', ''of'', ''mary'']"
    by (simp add: what_does_tokens_def what_does_rest_def Let_def string_eval char_eval)
  have c2: "what_does_answer \<lparr>facts = demo_facts, cout = []\<rparr>
       ''What does John likes? Who is the parent of Mary?''
     = labeled_list ''Answer'' [''pizza'']"
    by (simp add: what_does_answer_def tokens Let_def stored_def map_find_def demo_facts_def
        spec_matches_def results_text_def char_eval)
  have c3: "processQuery \<lparr>facts = demo_facts, cout = []\<rparr>
       ''What does John likes? Who is the parent of Mary?''
     = Inr \<lparr>facts = demo_facts,
            cout = query_echo ''What does John likes? Who is the parent of Mary?'' @
                   labeled_list ''Who'' [''john'']\<rparr>"
    by (simp add: processQuery_def Let_def extractRelation_def extractObject_def
        query_eval string_eval char_eval)
  show ?thesis
    by (simp only: c1 c2 c3) (simp add: labeled_list_def)
qed

end
